theory Spec2Isabelle
  imports Main "HOL-Library.Word"
begin

unbundle bit_operations_syntax

section \<open>The C library (current generation, tagged 64-byte layout)\<close>

subsection \<open>Constants and the version structure\<close>

text \<open>
  A C \<open>char\<close> (and a \<open>uint8_t\<close>) is stored as an 8-bit word; \<open>int\<close> and the
  enumeration \<open>prodVersionChannel_t\<close> are 32-bit words; \<open>size_t\<close> values are natural
  numbers (no computation of the library comes near its range). A pointer argument is an
  \<open>option\<close>: \<open>None\<close> is the null pointer, \<open>Some xs\<close> points to the bytes \<open>xs\<close>.
\<close>

type_synonym byte = "8 word"

definition PRODVER_STRUCTVER :: byte where
  "PRODVER_STRUCTVER = 1"

definition PRODVER_PRODUCT_LEN :: nat where
  "PRODVER_PRODUCT_LEN = 24"

definition PRODVER_METADATA_LEN :: nat where
  "PRODVER_METADATA_LEN = 15"

definition PRODVER_COMMIT_LEN :: nat where
  "PRODVER_COMMIT_LEN = 7"

definition PRODVER_ENCODED_LEN :: nat where
  "PRODVER_ENCODED_LEN = 64"

type_synonym prodVersionChannel_t = "32 word"

definition VERSION_CHANNEL_DEV :: prodVersionChannel_t where
  "VERSION_CHANNEL_DEV = 0x64"

definition VERSION_CHANNEL_INTERNAL :: prodVersionChannel_t where
  "VERSION_CHANNEL_INTERNAL = 0x69"

definition VERSION_CHANNEL_ALPHA :: prodVersionChannel_t where
  "VERSION_CHANNEL_ALPHA = 0x61"

definition VERSION_CHANNEL_BETA :: prodVersionChannel_t where
  "VERSION_CHANNEL_BETA = 0x62"

definition VERSION_CHANNEL_CANDIDATE :: prodVersionChannel_t where
  "VERSION_CHANNEL_CANDIDATE = 0x63"

definition VERSION_CHANNEL_RELEASE :: prodVersionChannel_t where
  "VERSION_CHANNEL_RELEASE = 0x72"

definition VERSION_CHANNEL_FACTORY :: prodVersionChannel_t where
  "VERSION_CHANNEL_FACTORY = 0x66"

text \<open>
  The structure. The three text members are the character arrays of the C structure
  (\<open>product[25]\<close>, \<open>metadata[16]\<close>, \<open>commitHash[8]\<close>) as byte lists; the text a
  member holds is what C reads from it as a string, the bytes before the first zero byte
  (\<open>c_str\<close> below).
\<close>

record prodVersion_t =
  product :: "byte list"
  major :: "16 word"
  minor :: "16 word"
  patch :: "16 word"
  build :: "16 word"
  releaseChannel :: prodVersionChannel_t
  metadata :: "byte list"
  commitHash :: "byte list"
  date :: "64 word"

subsection \<open>The C library functions the code calls\<close>

definition c_str :: "byte list \<Rightarrow> byte list" where
  \<comment> \<open>the string a character array holds: its bytes up to the first zero byte\<close>
  "c_str a = takeWhile (\<lambda>c. c \<noteq> 0) a"

definition memset :: "byte list \<Rightarrow> nat \<Rightarrow> byte \<Rightarrow> nat \<Rightarrow> byte list" where
  \<comment> \<open>\<open>memset(s + off, c, n)\<close>\<close>
  "memset s off c n = take off s @ replicate n c @ drop (off + n) s"

definition strncpy_bytes :: "byte list \<Rightarrow> nat \<Rightarrow> byte list" where
  \<comment> \<open>the \<open>n\<close> bytes \<open>strncpy\<close> writes: at most \<open>n\<close> bytes of the source are read, the
      copy stops at a zero byte, and the rest of the \<open>n\<close> bytes is filled with zero bytes\<close>
  "strncpy_bytes src n =
     (let s = takeWhile (\<lambda>c. c \<noteq> 0) (take n src)
      in s @ replicate (n - length s) 0)"

definition strncpy :: "byte list \<Rightarrow> nat \<Rightarrow> byte list \<Rightarrow> nat \<Rightarrow> byte list" where
  \<comment> \<open>\<open>strncpy(dest + off, src, n)\<close>\<close>
  "strncpy dest off src n = take off dest @ strncpy_bytes src n @ drop (off + n) dest"

definition memcpy_array :: "byte list \<Rightarrow> nat \<Rightarrow> nat \<Rightarrow> byte list" where
  \<comment> \<open>\<open>memcpy(a, src + off, n); a[n] = '\0'\<close> for a character array \<open>a\<close> of \<open>n + 1\<close>
      bytes: every byte of the array is written, so its new content is given whole\<close>
  "memcpy_array src off n = take n (drop off src) @ [0]"

definition char_to_enum :: "bool \<Rightarrow> byte \<Rightarrow> prodVersionChannel_t" where
  \<comment> \<open>the conversion of a plain \<open>char\<close> to the enumeration: whether plain \<open>char\<close> is
      signed is the C implementation's choice, taken as the parameter \<open>char_signed\<close>\<close>
  "char_to_enum char_signed c = (if char_signed then scast c else ucast c)"

subsection \<open>prodVersionEncodeBytes\<close>

definition prodVersionEncodeBytes ::
    "byte list option \<Rightarrow> nat \<Rightarrow> prodVersion_t option \<Rightarrow> nat \<times> byte list option" where
  "prodVersionEncodeBytes ret_buf len version =
     (case (ret_buf, version) of
        (Some b, Some v) \<Rightarrow>
          if len < PRODVER_ENCODED_LEN then (0, ret_buf)
          else
            let offset = 0;
                b = b[offset := PRODVER_STRUCTVER]; offset = offset + 1;
                b = memset b offset 0 PRODVER_PRODUCT_LEN;
                b = strncpy b offset (product v) PRODVER_PRODUCT_LEN;
                offset = offset + PRODVER_PRODUCT_LEN;
                b = b[offset := ucast (drop_bit 8 (ucast (major v) :: 32 word) AND 0xFF)];
                offset = offset + 1;
                b = b[offset := ucast ((ucast (major v) :: 32 word) AND 0xFF)];
                offset = offset + 1;
                b = b[offset := ucast (drop_bit 8 (ucast (minor v) :: 32 word) AND 0xFF)];
                offset = offset + 1;
                b = b[offset := ucast ((ucast (minor v) :: 32 word) AND 0xFF)];
                offset = offset + 1;
                b = b[offset := ucast (drop_bit 8 (ucast (patch v) :: 32 word) AND 0xFF)];
                offset = offset + 1;
                b = b[offset := ucast ((ucast (patch v) :: 32 word) AND 0xFF)];
                offset = offset + 1;
                b = b[offset := ucast (drop_bit 8 (ucast (build v) :: 32 word) AND 0xFF)];
                offset = offset + 1;
                b = b[offset := ucast ((ucast (build v) :: 32 word) AND 0xFF)];
                offset = offset + 1;
                b = b[offset := ucast (releaseChannel v)]; offset = offset + 1;
                b = memset b offset 0 PRODVER_METADATA_LEN;
                b = strncpy b offset (metadata v) PRODVER_METADATA_LEN;
                offset = offset + PRODVER_METADATA_LEN;
                b = memset b offset 0 PRODVER_COMMIT_LEN;
                b = strncpy b offset (commitHash v) PRODVER_COMMIT_LEN;
                offset = offset + PRODVER_COMMIT_LEN;
                d = date v;
                b = b[offset := ucast (drop_bit 56 d AND 0xFF)]; offset = offset + 1;
                b = b[offset := ucast (drop_bit 48 d AND 0xFF)]; offset = offset + 1;
                b = b[offset := ucast (drop_bit 40 d AND 0xFF)]; offset = offset + 1;
                b = b[offset := ucast (drop_bit 32 d AND 0xFF)]; offset = offset + 1;
                b = b[offset := ucast (drop_bit 24 d AND 0xFF)]; offset = offset + 1;
                b = b[offset := ucast (drop_bit 16 d AND 0xFF)]; offset = offset + 1;
                b = b[offset := ucast (drop_bit 8 d AND 0xFF)]; offset = offset + 1;
                b = b[offset := ucast (d AND 0xFF)]; offset = offset + 1
            in (offset, Some b)
      | _ \<Rightarrow> (0, ret_buf))"

subsection \<open>prodVersionDecodeBytes\<close>

definition prodVersionDecodeBytes ::
    "bool \<Rightarrow> byte list option \<Rightarrow> nat \<Rightarrow> prodVersion_t option \<Rightarrow> bool \<times> prodVersion_t option" where
  "prodVersionDecodeBytes char_signed buf len ret_version =
     (case (buf, ret_version) of
        (Some b, Some r) \<Rightarrow>
          if len < PRODVER_ENCODED_LEN then (False, ret_version)
          else
            let offset = 0;
                structVer = b ! offset; offset = offset + 1
            in if structVer \<noteq> PRODVER_STRUCTVER then (False, ret_version)
            else
              let r = r\<lparr>product := memcpy_array b offset PRODVER_PRODUCT_LEN\<rparr>;
                  offset = offset + PRODVER_PRODUCT_LEN;
                  r = r\<lparr>major := ucast (push_bit 8 (ucast (b ! offset) :: 32 word)
                                        OR ucast (b ! (offset + 1)))\<rparr>;
                  offset = offset + 2;
                  r = r\<lparr>minor := ucast (push_bit 8 (ucast (b ! offset) :: 32 word)
                                        OR ucast (b ! (offset + 1)))\<rparr>;
                  offset = offset + 2;
                  r = r\<lparr>patch := ucast (push_bit 8 (ucast (b ! offset) :: 32 word)
                                        OR ucast (b ! (offset + 1)))\<rparr>;
                  offset = offset + 2;
                  r = r\<lparr>build := ucast (push_bit 8 (ucast (b ! offset) :: 32 word)
                                        OR ucast (b ! (offset + 1)))\<rparr>;
                  offset = offset + 2;
                  r = r\<lparr>releaseChannel := char_to_enum char_signed (b ! offset)\<rparr>;
                  offset = offset + 1;
                  r = r\<lparr>metadata := memcpy_array b offset PRODVER_METADATA_LEN\<rparr>;
                  offset = offset + PRODVER_METADATA_LEN;
                  r = r\<lparr>commitHash := memcpy_array b offset PRODVER_COMMIT_LEN\<rparr>;
                  offset = offset + PRODVER_COMMIT_LEN;
                  d = (0 :: 64 word);
                  d = d OR push_bit 56 (ucast (b ! offset)); offset = offset + 1;
                  d = d OR push_bit 48 (ucast (b ! offset)); offset = offset + 1;
                  d = d OR push_bit 40 (ucast (b ! offset)); offset = offset + 1;
                  d = d OR push_bit 32 (ucast (b ! offset)); offset = offset + 1;
                  d = d OR push_bit 24 (ucast (b ! offset)); offset = offset + 1;
                  d = d OR push_bit 16 (ucast (b ! offset)); offset = offset + 1;
                  d = d OR push_bit 8 (ucast (b ! offset)); offset = offset + 1;
                  d = d OR ucast (b ! offset); offset = offset + 1;
                  r = r\<lparr>date := d\<rparr>
              in (True, Some r)
      | _ \<Rightarrow> (False, ret_version))"

subsection \<open>prodVersionToString\<close>

definition bytes :: "string \<Rightarrow> byte list" where
  \<comment> \<open>a string literal of the source as its character codes\<close>
  "bytes cs = map of_char cs"

fun utoa :: "nat \<Rightarrow> byte list" where
  \<comment> \<open>what \<open>%u\<close> prints: the decimal digits, most significant first, no padding\<close>
  "utoa n = (if n < 10 then [of_nat (48 + n)]
             else utoa (n div 10) @ [of_nat (48 + n mod 10)])"

declare utoa.simps [simp del]

definition first_char :: "byte list \<Rightarrow> byte" where
  \<comment> \<open>\<open>a[0]\<close> of a character array (the arrays of the structure are not empty)\<close>
  "first_char a = (case a of [] \<Rightarrow> 0 | c # _ \<Rightarrow> c)"

text \<open>
  The conversion \<open>%s\<close> prints the bytes it finds from the start of the array up to the
  first zero byte. When the array holds no zero byte the read does not stop at its end: it
  goes on through the memory that follows the array, which for a member of the structure
  is the members declared after it, in the layout the C implementation gives them. That
  memory is not part of the value of the member, so the formatter takes it as a
  parameter: for each of the three arrays, the bytes that follow it in memory, as far as
  the read goes. An array that holds a zero byte is printed without regard to them.
\<close>

record following_memory =
  after_product :: "byte list"
  after_metadata :: "byte list"
  after_commitHash :: "byte list"

definition printf_s :: "byte list \<Rightarrow> byte list \<Rightarrow> byte list" where
  \<comment> \<open>what \<open>%s\<close> prints for the array \<open>a\<close> followed in memory by \<open>following\<close>\<close>
  "printf_s a following = c_str (a @ following)"

definition format_version :: "following_memory \<Rightarrow> prodVersion_t \<Rightarrow> byte list" where
  \<comment> \<open>the text that the format \<open>"%s %u.%u.%u%c%s%s%s%s%s%c"\<close> produces from the eleven
      arguments of the call, in their order; \<open>%c\<close> prints its \<open>int\<close> argument converted
      to \<open>unsigned char\<close>\<close>
  "format_version mem v =
     (if first_char (product v) \<noteq> 0 then printf_s (product v) (after_product mem)
      else bytes '''')
     @ bytes '' ''
     @ utoa (unat (major v)) @ bytes ''.''
     @ utoa (unat (minor v)) @ bytes ''.''
     @ utoa (unat (patch v))
     @ [ucast (releaseChannel v)]
     @ (if first_char (metadata v) \<noteq> 0 then bytes ''-'' else bytes '''')
     @ printf_s (metadata v) (after_metadata mem)
     @ (if releaseChannel v \<noteq> VERSION_CHANNEL_RELEASE then bytes '' ('' else bytes '''')
     @ (if releaseChannel v \<noteq> VERSION_CHANNEL_RELEASE
        then printf_s (commitHash v) (after_commitHash mem) else bytes '''')
     @ (if releaseChannel v \<noteq> VERSION_CHANNEL_RELEASE then bytes '')'' else bytes '''')
     @ [ucast (build v)]"

definition INT_MAX :: int where
  "INT_MAX = 2147483647"

definition snprintf :: "byte list \<Rightarrow> nat \<Rightarrow> byte list \<Rightarrow> int \<times> byte list" where
  \<comment> \<open>\<open>snprintf(str, n, ...)\<close> for the formatted text \<open>text\<close>: at most \<open>n - 1\<close>
      characters are stored, followed by a zero byte, and the length the whole text would
      have had is returned; a text longer than \<open>INT_MAX\<close> is an error, reported by a
      negative value\<close>
  "snprintf str n text =
     (if INT_MAX < int (length text) then (- 1, str)
      else if n = 0 then (int (length text), str)
      else
        let k = min (length text) (n - 1)
        in (int (length text), take k text @ [0] @ drop (k + 1) str))"

definition prodVersionToString ::
    "following_memory \<Rightarrow> prodVersion_t option \<Rightarrow> byte list option \<Rightarrow> nat
       \<Rightarrow> nat \<times> byte list option" where
  \<comment> \<open>\<open>mem\<close> is the memory that follows the arrays of \<open>*version\<close>, see above\<close>
  "prodVersionToString mem version ret_str buf_len =
     (case (version, ret_str) of
        (Some v, Some str) \<Rightarrow>
          if buf_len = 0 then (0, ret_str)
          else if buf_len < 2 then (0, Some (str[0 := 0]))
          else
            let (written, str) = snprintf str buf_len (format_version mem v)
            in if written < 0 \<or> buf_len \<le> nat written then (0, Some (str[0 := 0]))
               else (nat written, Some str)
      | _ \<Rightarrow> (0, ret_str))"

section \<open>The C\# library (current generation)\<close>

text \<open>
  A C\# \<open>char\<close> is a 16-bit code unit, a \<open>string\<close> a list of them, and a reference that
  may be \<open>null\<close> an \<open>option\<close>. The private fields of \<open>VersionInfo\<close> keep their names
  with the prefix \<open>f\<close> in place of the underscore.
\<close>

type_synonym cs_char = "16 word"
type_synonym cs_string = "cs_char list"

definition cs :: "string \<Rightarrow> cs_string" where
  \<comment> \<open>a string literal of the source\<close>
  "cs xs = map of_char xs"

definition PRODUCT_SIZE :: nat where
  "PRODUCT_SIZE = 24"

definition METADATA_SIZE :: nat where
  "METADATA_SIZE = 15"

definition COMMIT_HASH_SIZE :: nat where
  "COMMIT_HASH_SIZE = 7"

definition ReleaseChannel_Release :: byte where
  \<comment> \<open>\<open>ReleaseChannel.Release = (byte)'r'\<close>\<close>
  "ReleaseChannel_Release = 0x72"

definition ReleaseChannel_Beta :: byte where
  \<comment> \<open>\<open>ReleaseChannel.Beta = (byte)'b'\<close>\<close>
  "ReleaseChannel_Beta = 0x62"

datatype cs_exception = NotImplementedException

record VersionInfo =
  f_product :: "cs_string option"
  f_major :: "16 word"
  f_minor :: "16 word"
  f_patch :: "16 word"
  f_build :: "16 word"
  f_releaseChannel :: byte
  f_metadata :: "cs_string option"
  f_commitHash :: "cs_string option"
  f_unixTimestamp :: "64 word"

definition new_VersionInfo :: VersionInfo where
  \<comment> \<open>\<open>new VersionInfo()\<close>: every field has its default value\<close>
  "new_VersionInfo =
     \<lparr>f_product = None, f_major = 0, f_minor = 0, f_patch = 0, f_build = 0,
      f_releaseChannel = 0, f_metadata = None, f_commitHash = None, f_unixTimestamp = 0\<rparr>"

definition TrimEnd :: "cs_string \<Rightarrow> cs_char \<Rightarrow> cs_string" where
  "TrimEnd s c = rev (dropWhile (\<lambda>x. x = c) (rev s))"

definition Substring :: "cs_string \<Rightarrow> nat \<Rightarrow> nat \<Rightarrow> cs_string" where
  \<comment> \<open>\<open>s.Substring(start, n)\<close>, called by the source only with \<open>start + n \<le> s.Length\<close>\<close>
  "Substring s start n = take n (drop start s)"

definition or_empty :: "cs_string option \<Rightarrow> cs_string" where
  \<comment> \<open>\<open>value ?? ""\<close>\<close>
  "or_empty v = (case v of None \<Rightarrow> [] | Some s \<Rightarrow> s)"

definition get_Product :: "VersionInfo \<Rightarrow> cs_string" where
  "get_Product v = TrimEnd (or_empty (f_product v)) 0"

definition set_Product :: "VersionInfo \<Rightarrow> cs_string option \<Rightarrow> VersionInfo" where
  "set_Product v val =
     (let val = (case val of
                   Some s \<Rightarrow> if PRODUCT_SIZE < length s then Some (Substring s 0 PRODUCT_SIZE)
                             else val
                 | None \<Rightarrow> val)
      in v\<lparr>f_product := Some (or_empty val)\<rparr>)"

definition get_Metadata :: "VersionInfo \<Rightarrow> cs_string" where
  "get_Metadata v = TrimEnd (or_empty (f_metadata v)) 0"

definition set_Metadata :: "VersionInfo \<Rightarrow> cs_string option \<Rightarrow> VersionInfo" where
  "set_Metadata v val =
     (let val = (case val of
                   Some s \<Rightarrow> if METADATA_SIZE < length s then Some (Substring s 0 METADATA_SIZE)
                             else val
                 | None \<Rightarrow> val)
      in v\<lparr>f_metadata := Some (or_empty val)\<rparr>)"

definition get_CommitHash :: "VersionInfo \<Rightarrow> cs_string" where
  "get_CommitHash v = TrimEnd (or_empty (f_commitHash v)) 0"

definition set_CommitHash :: "VersionInfo \<Rightarrow> cs_string option \<Rightarrow> VersionInfo" where
  "set_CommitHash v val =
     (let val = (case val of
                   Some s \<Rightarrow> if COMMIT_HASH_SIZE < length s
                             then Some (Substring s 0 COMMIT_HASH_SIZE) else val
                 | None \<Rightarrow> val)
      in v\<lparr>f_commitHash := Some (or_empty val)\<rparr>)"

definition ASCII_GetString :: "byte list \<Rightarrow> nat \<Rightarrow> nat \<Rightarrow> cs_string" where
  \<comment> \<open>\<open>Encoding.ASCII.GetString(buffer, offset, length)\<close>: a byte above 0x7F decodes to
      the question mark\<close>
  "ASCII_GetString buffer offset n =
     map (\<lambda>b. if b \<le> 0x7F then ucast b else 0x3F) (take n (drop offset buffer))"

definition IndexOf :: "cs_string \<Rightarrow> cs_char \<Rightarrow> int" where
  \<comment> \<open>\<open>s.IndexOf(c)\<close>: the index of the first occurrence, or -1\<close>
  "IndexOf s c = (if c \<in> set s then int (length (takeWhile (\<lambda>x. x \<noteq> c) s)) else - 1)"

definition GetCString :: "byte list \<Rightarrow> nat \<Rightarrow> nat \<Rightarrow> cs_string" where
  "GetCString buffer offset n =
     (let str = ASCII_GetString buffer offset n;
          nullIndex = IndexOf str 0;
          str = (if 0 \<le> nullIndex then Substring str 0 (nat nullIndex) else str)
      in str)"

definition VersionInfo_Decode :: "byte list option \<Rightarrow> cs_exception + bool \<times> VersionInfo" where
  \<comment> \<open>the result is the exception thrown, or the returned flag with the \<open>out\<close> parameter\<close>
  "VersionInfo_Decode buffer =
     (let version = new_VersionInfo
      in case buffer of
           None \<Rightarrow> Inr (False, version)
         | Some b \<Rightarrow>
             if length b \<noteq> 64 then Inr (False, version)
             else
               let offset = 0;
                   ver = b ! offset; offset = offset + 1
               in if ver \<noteq> 1 then Inl NotImplementedException
               else
                 let version = set_Product version (Some (GetCString b offset PRODUCT_SIZE));
                     offset = offset + PRODUCT_SIZE;
                     version = version\<lparr>f_major :=
                       ucast (push_bit 8 (ucast (b ! offset) :: 32 word) OR ucast (b ! (offset + 1)))\<rparr>;
                     offset = offset + 2;
                     version = version\<lparr>f_minor :=
                       ucast (push_bit 8 (ucast (b ! offset) :: 32 word) OR ucast (b ! (offset + 1)))\<rparr>;
                     offset = offset + 2;
                     version = version\<lparr>f_patch :=
                       ucast (push_bit 8 (ucast (b ! offset) :: 32 word) OR ucast (b ! (offset + 1)))\<rparr>;
                     offset = offset + 2;
                     version = version\<lparr>f_build :=
                       ucast (push_bit 8 (ucast (b ! offset) :: 32 word) OR ucast (b ! (offset + 1)))\<rparr>;
                     offset = offset + 2;
                     version = version\<lparr>f_releaseChannel := b ! offset\<rparr>;
                     offset = offset + 1;
                     version = set_Metadata version (Some (GetCString b offset METADATA_SIZE));
                     offset = offset + METADATA_SIZE;
                     version = set_CommitHash version (Some (GetCString b offset COMMIT_HASH_SIZE));
                     offset = offset + COMMIT_HASH_SIZE;
                     version = version\<lparr>f_unixTimestamp :=
                       push_bit 56 (ucast (b ! offset)) OR
                       push_bit 48 (ucast (b ! (offset + 1))) OR
                       push_bit 40 (ucast (b ! (offset + 2))) OR
                       push_bit 32 (ucast (b ! (offset + 3))) OR
                       push_bit 24 (ucast (b ! (offset + 4))) OR
                       push_bit 16 (ucast (b ! (offset + 5))) OR
                       push_bit 8 (ucast (b ! (offset + 6))) OR
                       ucast (b ! (offset + 7))\<rparr>
                 in Inr (True, version))"

fun cs_decimal :: "nat \<Rightarrow> cs_string" where
  \<comment> \<open>a \<open>ushort\<close> formatted by \<open>string.Format\<close>: its decimal digits\<close>
  "cs_decimal n = (if n < 10 then [of_nat (48 + n)]
                   else cs_decimal (n div 10) @ [of_nat (48 + n mod 10)])"

declare cs_decimal.simps [simp del]

definition VersionInfo_ToString :: "VersionInfo \<Rightarrow> cs_string" where
  \<comment> \<open>\<open>string.Format("{0} {1}.{2}.{3}{4}{5}{6}{7}", ...)\<close>\<close>
  "VersionInfo_ToString v =
     get_Product v @ cs '' ''
     @ cs_decimal (unat (f_major v)) @ cs ''.''
     @ cs_decimal (unat (f_minor v)) @ cs ''.''
     @ cs_decimal (unat (f_patch v))
     @ [ucast (f_releaseChannel v)]
     @ (if TrimEnd (get_Metadata v) 0 = [] then cs ''''
        else cs ''-'' @ TrimEnd (get_Metadata v) 0)
     @ (if f_releaseChannel v \<noteq> ReleaseChannel_Release
        then cs '' ('' @ TrimEnd (get_CommitHash v) 0 @ cs '')''
        else cs '''')
     @ (if f_build v = 0 then cs '''' else cs '' build '' @ cs_decimal (unat (f_build v)))"

section \<open>Auxiliary notions for the statements and their proofs\<close>

definition written :: "byte list \<Rightarrow> nat \<Rightarrow> byte list \<Rightarrow> byte list" where
  \<comment> \<open>the destination \<open>b0\<close> after its first \<open>k\<close> bytes have been overwritten by \<open>pre\<close>\<close>
  "written pre k b0 = pre @ drop k b0"

definition be16 :: "16 word \<Rightarrow> byte list" where
  \<comment> \<open>the two bytes the encoder stores for a 16-bit member\<close>
  "be16 w = [ucast (drop_bit 8 (ucast w :: 32 word) AND 0xFF), ucast ((ucast w :: 32 word) AND 0xFF)]"

definition be64 :: "64 word \<Rightarrow> byte list" where
  \<comment> \<open>the eight bytes the encoder stores for the date\<close>
  "be64 d = [ucast (drop_bit 56 d AND 0xFF), ucast (drop_bit 48 d AND 0xFF),
             ucast (drop_bit 40 d AND 0xFF), ucast (drop_bit 32 d AND 0xFF),
             ucast (drop_bit 24 d AND 0xFF), ucast (drop_bit 16 d AND 0xFF),
             ucast (drop_bit 8 d AND 0xFF), ucast (d AND 0xFF)]"

definition wire :: "prodVersion_t \<Rightarrow> byte list" where
  \<comment> \<open>the 64 bytes the encoder stores, in the order it stores them\<close>
  "wire v = [PRODVER_STRUCTVER] @ strncpy_bytes (product v) 24
            @ be16 (major v) @ be16 (minor v) @ be16 (patch v) @ be16 (build v)
            @ [ucast (releaseChannel v)]
            @ strncpy_bytes (metadata v) 15 @ strncpy_bytes (commitHash v) 7
            @ be64 (date v)"

definition u16_of :: "byte \<Rightarrow> byte \<Rightarrow> 16 word" where
  \<comment> \<open>the decoder's reassembly of a 16-bit member\<close>
  "u16_of h l = ucast (push_bit 8 (ucast h :: 32 word) OR ucast l)"

definition u64_of ::
    "byte \<Rightarrow> byte \<Rightarrow> byte \<Rightarrow> byte \<Rightarrow> byte \<Rightarrow> byte \<Rightarrow> byte \<Rightarrow> byte \<Rightarrow> 64 word" where
  \<comment> \<open>the decoder's reassembly of the date\<close>
  "u64_of b7 b6 b5 b4 b3 b2 b1 b0 =
     (0 OR push_bit 56 (ucast b7) OR push_bit 48 (ucast b6) OR push_bit 40 (ucast b5)
        OR push_bit 32 (ucast b4) OR push_bit 24 (ucast b3) OR push_bit 16 (ucast b2)
        OR push_bit 8 (ucast b1) OR ucast b0)"

definition decoded :: "bool \<Rightarrow> byte list \<Rightarrow> prodVersion_t" where
  \<comment> \<open>the structure a successful decode leaves, member by member\<close>
  "decoded char_signed b =
     \<lparr>product = take 24 (drop 1 b) @ [0],
      major = u16_of (b ! 25) (b ! 26), minor = u16_of (b ! 27) (b ! 28),
      patch = u16_of (b ! 29) (b ! 30), build = u16_of (b ! 31) (b ! 32),
      releaseChannel = char_to_enum char_signed (b ! 33),
      metadata = take 15 (drop 34 b) @ [0],
      commitHash = take 7 (drop 49 b) @ [0],
      date = u64_of (b ! 56) (b ! 57) (b ! 58) (b ! 59) (b ! 60) (b ! 61) (b ! 62) (b ! 63)\<rparr>"

definition channel_is_char :: "bool \<Rightarrow> prodVersionChannel_t \<Rightarrow> bool" where
  \<comment> \<open>the enumeration value is a character code: a value of the plain \<open>char\<close> type\<close>
  "channel_is_char char_signed c =
     (if char_signed then - 128 \<le> sint c \<and> sint c \<le> 127 else unat c \<le> 255)"

definition nul_padded :: "byte list \<Rightarrow> bool" where
  \<comment> \<open>a text slot in canonical form: every byte after the first zero byte is zero\<close>
  "nul_padded s = list_all (\<lambda>c. c = 0) (dropWhile (\<lambda>c. c \<noteq> 0) s)"

section \<open>Example values\<close>

definition acme :: "prodVersionChannel_t \<Rightarrow> prodVersion_t" where
  \<comment> \<open>the record of the specification's formatting example, for a given channel\<close>
  "acme channel =
     \<lparr>product = bytes ''ACME'' @ replicate 21 0, major = 1, minor = 2, patch = 3, build = 7,
      releaseChannel = channel, metadata = replicate 16 0,
      commitHash = bytes ''abc1234'' @ [0], date = 1700000000\<rparr>"

definition cs_acme :: "byte \<Rightarrow> 16 word \<Rightarrow> VersionInfo" where
  \<comment> \<open>the same record built through the C\# properties, for a given channel and build\<close>
  "cs_acme channel n =
     (let v = new_VersionInfo;
          v = set_Product v (Some (cs ''ACME''));
          v = v\<lparr>f_major := 1, f_minor := 2, f_patch := 3, f_build := n\<rparr>;
          v = v\<lparr>f_releaseChannel := channel\<rparr>;
          v = set_Metadata v (Some (cs ''''));
          v = set_CommitHash v (Some (cs ''abc1234''))
      in v\<lparr>f_unixTimestamp := 1700000000\<rparr>)"

definition le_bytes :: "nat \<Rightarrow> 'a::len word \<Rightarrow> byte list" where
  \<comment> \<open>the first \<open>n\<close> bytes of an integer stored least significant byte first\<close>
  "le_bytes n w = map (\<lambda>i. ucast (drop_bit (8 * i) w)) [0..<n]"

definition usual_layout :: "byte list \<Rightarrow> byte list \<Rightarrow> prodVersion_t \<Rightarrow> following_memory" where
  \<comment> \<open>the memory following each array of a structure laid out as the common 64-bit C
      implementations do: members in declaration order, one padding byte after
      \<open>product\<close>, two after \<open>build\<close>, a four-byte enumeration, integers least
      significant byte first; \<open>padding\<close> holds the three padding bytes and \<open>beyond\<close> the
      memory after the structure\<close>
  "usual_layout padding beyond v =
     (let c = le_bytes 8 (date v) @ beyond;
          m = commitHash v @ c;
          p = take 1 padding
              @ le_bytes 2 (major v) @ le_bytes 2 (minor v) @ le_bytes 2 (patch v)
              @ le_bytes 2 (build v)
              @ take 2 (drop 1 padding)
              @ le_bytes 4 (releaseChannel v)
              @ metadata v @ m
      in \<lparr>after_product = p, after_metadata = m, after_commitHash = c\<rparr>)"

definition major_0102 :: prodVersion_t where
  \<comment> \<open>the example record with the major version of the endianness example\<close>
  "major_0102 = (acme VERSION_CHANNEL_RELEASE)\<lparr>major := 0x0102\<rparr>"

definition long_texts :: prodVersion_t where
  \<comment> \<open>a structure whose three character arrays hold no terminator within the wire width\<close>
  "long_texts =
     \<lparr>product = bytes ''ABCDEFGHIJKLMNOPQRSTUVWXY'', major = 1, minor = 0, patch = 0, build = 0,
      releaseChannel = VERSION_CHANNEL_ALPHA, metadata = bytes ''0123456789abcdef'',
      commitHash = bytes ''7b5a2fe9'', date = 0\<rparr>"

definition tagged_buffer :: "byte \<Rightarrow> byte list" where
  \<comment> \<open>a well-formed 64-byte buffer carrying a given release-channel byte\<close>
  "tagged_buffer channel =
     [1] @ bytes ''ACME'' @ replicate 20 0 @ [0, 1, 0, 2, 0, 3, 0, 7] @ [channel]
     @ replicate 15 0 @ bytes ''abc1234'' @ [0, 0, 0, 0, 0x65, 0x53, 0xF1, 0x00]"

section \<open>Lemmas about the C library functions and the byte arithmetic\<close>

lemma length_strncpy_bytes [simp]: "length (strncpy_bytes src n) = n"
proof -
  have "length (takeWhile (\<lambda>c. c \<noteq> 0) (take n src)) \<le> n"
    using length_takeWhile_le [of "\<lambda>c. c \<noteq> 0" "take n src"] by simp
  then show ?thesis by (simp add: strncpy_bytes_def Let_def)
qed

lemma written_start: "64 \<le> length b \<Longrightarrow> b[0 := x] = written [x] 1 b"
  by (cases b) (simp_all add: written_def)

lemma written_upd:
  "length pre = k \<Longrightarrow> k < length b0 \<Longrightarrow>
   (written pre k b0)[k := x] = written (pre @ [x]) (k + 1) b0"
  by (simp add: written_def list_update_append drop_Suc upd_conv_take_nth_drop drop_tl)

lemma written_fill:
  "length pre = k \<Longrightarrow> k + n \<le> length b0 \<Longrightarrow>
   strncpy (memset (written pre k b0) k 0 n) k src n
     = written (pre @ strncpy_bytes src n) (k + n) b0"
  by (simp add: written_def strncpy_def memset_def add.commute)

lemma length_wire [simp]: "length (wire v) = 64"
  by (simp add: wire_def be16_def be64_def)

lemma encode_wire:
  assumes "64 \<le> len" "len \<le> length b"
  shows "prodVersionEncodeBytes (Some b) len (Some v) = (64, Some (wire v @ drop 64 b))"
proof -
  from assms have l: "64 \<le> length b" by simp
  then show ?thesis using assms(1)
    by (simp add: prodVersionEncodeBytes_def Let_def PRODVER_ENCODED_LEN_def
        PRODVER_PRODUCT_LEN_def PRODVER_METADATA_LEN_def PRODVER_COMMIT_LEN_def
        written_start written_upd written_fill)
      (simp add: written_def wire_def be16_def be64_def)
qed

lemma encode_short:
  "len < 64 \<Longrightarrow> prodVersionEncodeBytes ret_buf len version = (0, ret_buf)"
  by (simp add: prodVersionEncodeBytes_def PRODVER_ENCODED_LEN_def
      split: option.splits)

lemma decode_eq:
  "prodVersionDecodeBytes s (Some b) len (Some old) =
     (if len < 64 \<or> b ! 0 \<noteq> 1 then (False, Some old) else (True, Some (decoded s b)))"
  by (cases old) (simp add: prodVersionDecodeBytes_def Let_def PRODVER_ENCODED_LEN_def
        PRODVER_PRODUCT_LEN_def PRODVER_METADATA_LEN_def PRODVER_COMMIT_LEN_def
        PRODVER_STRUCTVER_def memcpy_array_def decoded_def u16_of_def u64_of_def or.assoc)

lemma decode_null:
  "buf = None \<or> ret_version = None \<Longrightarrow>
   prodVersionDecodeBytes s buf len ret_version = (False, ret_version)"
  by (auto simp add: prodVersionDecodeBytes_def split: option.splits)

lemma and_255: "(x :: 'a::len word) AND 0xFF = take_bit 8 x"
proof -
  have "(0xFF :: 'a word) = mask 8" by (simp add: mask_eq_exp_minus_1)
  then show ?thesis by (simp add: take_bit_eq_mask)
qed

lemma bit_byte_high: "8 \<le> m \<Longrightarrow> \<not> bit (b :: byte) m"
  using bit_imp_le_length [of b m] by auto

lemma char_of_enum_of_char: "ucast (char_to_enum s c) = c"
  apply (simp add: char_to_enum_def)
  apply (rule conjI; rule impI; rule bit_word_eqI)
   apply (auto simp add: bit_simps)
  done

lemma bit_byte_of_u64:
  "bit (push_bit k (ucast (ucast (drop_bit k (d :: 64 word) AND 0xFF) :: byte) :: 64 word)) n
     \<longleftrightarrow> k \<le> n \<and> n < k + 8 \<and> bit d n"
  by (auto simp add: and_255 bit_simps dest: bit_imp_le_length)

lemma bit_byte_of_u64_0:
  "bit (ucast (ucast ((d :: 64 word) AND 0xFF) :: byte) :: 64 word) n \<longleftrightarrow> n < 8 \<and> bit d n"
  by (auto simp add: and_255 bit_simps dest: bit_imp_le_length)

lemma bit_u64_of_byte:
  "bit (push_bit j (ucast (b :: byte) :: 64 word)) m
     \<longleftrightarrow> j \<le> m \<and> m < j + 8 \<and> m < 64 \<and> bit b (m - j)"
  by (auto simp add: bit_simps dest: bit_imp_le_length)

lemma bit_u64_of_byte_0:
  "bit (ucast (b :: byte) :: 64 word) m \<longleftrightarrow> m < 8 \<and> bit b m"
  by (auto simp add: bit_simps dest: bit_imp_le_length)

lemma u16_of_be16:
  "u16_of (ucast (drop_bit 8 (ucast w :: 32 word) AND 0xFF))
          (ucast ((ucast w :: 32 word) AND 0xFF)) = w"
  unfolding u16_of_def
  apply (rule bit_word_eqI)
  apply (auto simp add: and_255 bit_simps)
  done

lemma be16_u16_of: "be16 (u16_of h l) = [h, l]"
  unfolding u16_of_def be16_def
  apply simp
  apply (rule conjI; rule bit_word_eqI)
   apply (auto simp add: and_255 bit_simps bit_byte_high)
  done

lemma u64_of_be64:
  "u64_of (ucast (drop_bit 56 d AND 0xFF)) (ucast (drop_bit 48 d AND 0xFF))
      (ucast (drop_bit 40 d AND 0xFF)) (ucast (drop_bit 32 d AND 0xFF))
      (ucast (drop_bit 24 d AND 0xFF)) (ucast (drop_bit 16 d AND 0xFF))
      (ucast (drop_bit 8 d AND 0xFF)) (ucast (d AND 0xFF)) = d" (is "?l = d")
proof (rule bit_word_eqI)
  fix n assume "n < LENGTH(64)"
  then have n: "n < 64" by simp
  show "bit ?l n = bit d n"
  proof (cases "bit d n")
    case True
    with n show ?thesis
      unfolding u64_of_def bit_or_iff bit_byte_of_u64 bit_byte_of_u64_0 by simp arith
  next
    case False
    then show ?thesis
      unfolding u64_of_def bit_or_iff bit_byte_of_u64 bit_byte_of_u64_0 by simp
  qed
qed

lemma be64_u64_of: "be64 (u64_of b7 b6 b5 b4 b3 b2 b1 b0) = [b7, b6, b5, b4, b3, b2, b1, b0]"
  unfolding be64_def
  apply simp
  apply (intro conjI; rule bit_word_eqI)
         apply (simp_all add: u64_of_def and_255 bit_ucast_iff bit_take_bit_iff bit_drop_bit_eq
      bit_or_iff bit_u64_of_byte bit_u64_of_byte_0 bit_byte_high)
  done

lemma decoded_wire:
  "decoded s (wire v @ rest) =
     \<lparr>product = strncpy_bytes (product v) 24 @ [0],
      major = major v, minor = minor v, patch = patch v, build = build v,
      releaseChannel = char_to_enum s (ucast (releaseChannel v)),
      metadata = strncpy_bytes (metadata v) 15 @ [0],
      commitHash = strncpy_bytes (commitHash v) 7 @ [0],
      date = date v\<rparr>"
  by (simp add: decoded_def wire_def be16_def be64_def nth_append u16_of_be16 u64_of_be64)

lemma takeWhile_take_comm: "takeWhile P (take n xs) = take n (takeWhile P xs)"
proof (induction xs arbitrary: n)
  case Nil
  then show ?case by simp
next
  case (Cons x xs)
  then show ?case by (cases n) simp_all
qed

lemma c_str_zeros: "c_str (replicate k 0 @ [0]) = []"
  by (cases k) (simp_all add: c_str_def)

lemma c_str_strncpy_bytes: "c_str (strncpy_bytes src n @ [0]) = take n (c_str src)"
proof -
  define t where "t = takeWhile (\<lambda>c. c \<noteq> 0) (take n src)"
  have nz: "\<forall>x\<in>set t. x \<noteq> 0"
    unfolding t_def using set_takeWhileD by fastforce
  have "c_str (t @ (replicate (n - length t) 0 @ [0])) = t @ c_str (replicate (n - length t) 0 @ [0])"
    unfolding c_str_def using nz by (simp add: takeWhile_append2)
  then have "c_str (strncpy_bytes src n @ [0]) = t"
    by (simp add: strncpy_bytes_def Let_def c_str_zeros t_def)
  then show ?thesis
    by (simp add: t_def takeWhile_take_comm c_str_def)
qed

lemma c_str_no_nul: "0 \<notin> set (c_str a)"
  unfolding c_str_def using set_takeWhileD by fastforce

lemma strncpy_bytes_c_str:
  "strncpy_bytes src n = take n (c_str src) @ replicate (n - length (c_str src)) 0"
  by (simp add: strncpy_bytes_def Let_def takeWhile_take_comm c_str_def min_def)

lemma nul_padded_fill:
  assumes "nul_padded s"
  shows "takeWhile (\<lambda>c. c \<noteq> 0) s @ replicate (length s - length (takeWhile (\<lambda>c. c \<noteq> 0) s)) 0 = s"
proof -
  define t d where "t = takeWhile (\<lambda>c. c \<noteq> 0) s" and "d = dropWhile (\<lambda>c. c \<noteq> 0) s"
  have s: "t @ d = s" by (simp add: t_def d_def)
  have "\<forall>x\<in>set d. x = 0"
    using assms unfolding nul_padded_def list_all_iff d_def .
  then have r: "replicate (length d) 0 = d"
    by (rule replicate_length_same)
  have "length (t @ d) = length s"
    by (simp only: s)
  then have l: "length s - length t = length d"
    by simp
  have "t @ replicate (length s - length t) 0 = s"
    by (simp only: l r s)
  then show ?thesis
    by (simp only: t_def)
qed

lemma strncpy_bytes_slot':
  assumes "nul_padded s"
  shows "strncpy_bytes (s @ [0]) (length s) = s"
proof -
  have "take (length s) (s @ [0]) = s" by simp
  then show ?thesis
    unfolding strncpy_bytes_def Let_def by (simp only: nul_padded_fill [OF assms])
qed

lemma strncpy_bytes_slot:
  "nul_padded s \<Longrightarrow> length s = n \<Longrightarrow> strncpy_bytes (s @ [0]) n = s"
  using strncpy_bytes_slot' by blast

lemma drop_nth: "k < length b \<Longrightarrow> drop k b = b ! k # drop (k + 1) b"
  by (simp add: Cons_nth_drop_Suc)

lemma drop_take: "drop k b = take n (drop k b) @ drop (k + n) b"
  by (metis append_take_drop_id drop_drop add.commute)

lemma layout:
  assumes "length b = 64"
  shows "b = [b ! 0] @ take 24 (drop 1 b)
           @ [b ! 25, b ! 26, b ! 27, b ! 28, b ! 29, b ! 30, b ! 31, b ! 32, b ! 33]
           @ take 15 (drop 34 b) @ take 7 (drop 49 b)
           @ [b ! 56, b ! 57, b ! 58, b ! 59, b ! 60, b ! 61, b ! 62, b ! 63]"
proof -
  define p m c where "p = take 24 (drop 1 b)" and "m = take 15 (drop 34 b)"
    and "c = take 7 (drop 49 b)"
  have t: "drop 56 b = [b ! 56, b ! 57, b ! 58, b ! 59, b ! 60, b ! 61, b ! 62, b ! 63]"
    using assms by (simp add: drop_nth)
  have c: "drop 49 b = c @ drop 56 b"
    using drop_take [of 49 b 7] by (simp add: c_def)
  have m: "drop 34 b = m @ drop 49 b"
    using drop_take [of 34 b 15] by (simp add: m_def)
  have n: "drop 25 b = [b ! 25, b ! 26, b ! 27, b ! 28, b ! 29, b ! 30, b ! 31, b ! 32, b ! 33] @ drop 34 b"
    using assms by (simp add: drop_nth)
  have p: "drop 1 b = p @ drop 25 b"
    using drop_take [of 1 b 24] by (simp add: p_def)
  have h: "[b ! 0] @ drop 1 b = b"
    using assms drop_nth [of 0 b] by simp
  have e: "[b ! 0] @ drop 1 b = [b ! 0] @ p
           @ [b ! 25, b ! 26, b ! 27, b ! 28, b ! 29, b ! 30, b ! 31, b ! 32, b ! 33]
           @ m @ c @ [b ! 56, b ! 57, b ! 58, b ! 59, b ! 60, b ! 61, b ! 62, b ! 63]"
    by (simp only: p n m c t append_assoc)
  show ?thesis
    by (rule e [unfolded h p_def m_def c_def])
qed

lemma roundtrip:
  assumes "64 \<le> len" "len \<le> length dst"
  shows "prodVersionDecodeBytes s (snd (prodVersionEncodeBytes (Some dst) len (Some v))) len (Some old)
    = (True, Some \<lparr>product = strncpy_bytes (product v) 24 @ [0],
      major = major v, minor = minor v, patch = patch v, build = build v,
      releaseChannel = char_to_enum s (ucast (releaseChannel v)),
      metadata = strncpy_bytes (metadata v) 15 @ [0],
      commitHash = strncpy_bytes (commitHash v) 7 @ [0],
      date = date v\<rparr>)"
proof -
  have "(wire v @ drop 64 dst) ! 0 = 1"
    by (simp add: wire_def PRODVER_STRUCTVER_def)
  then show ?thesis
    using assms by (simp add: encode_wire decode_eq decoded_wire)
qed

lemma unat_byte_of: "unat (ucast ((x :: 'a::len word) AND 0xFF) :: byte) = unat x mod 256"
proof -
  have "unat (ucast (take_bit 8 x) :: byte) = take_bit 8 (unat x)"
    by (simp add: unsigned_ucast_eq unsigned_take_bit_eq)
  also have "\<dots> = unat x mod 256"
    by (simp add: take_bit_eq_mod)
  finally show ?thesis
    by (simp only: and_255)
qed

lemma unat_drop_bit_div: "unat (drop_bit k (x :: 'a::len word)) = unat x div 2 ^ k"
  by (subst unat_drop_bit_eq) (rule drop_bit_eq_div)

lemma unat_ucast_16_32: "unat (ucast (w :: 16 word) :: 32 word) = unat w"
proof -
  have "unat w < 2 ^ 16" using unsigned_less [of w] by simp
  then have "take_bit 32 (unat w) = unat w"
    by (simp add: take_bit_eq_mod)
  then show ?thesis
    by (simp add: unsigned_ucast_eq)
qed

lemma unat_hi16: "unat (ucast (drop_bit 8 (ucast (w :: 16 word) :: 32 word) AND 0xFF) :: byte) = unat w div 256"
proof -
  have "unat w < 2 ^ 16" using unsigned_less [of w] by simp
  then have "unat w div 256 < 256" by simp
  then show ?thesis
    by (simp add: unat_byte_of unat_drop_bit_div unat_ucast_16_32)
qed

lemma unat_lo16: "unat (ucast ((ucast (w :: 16 word) :: 32 word) AND 0xFF) :: byte) = unat w mod 256"
  by (simp add: unat_byte_of unat_ucast_16_32)

lemma unat_byte64: "unat (ucast (drop_bit k (d :: 64 word) AND 0xFF) :: byte) = unat d div 2 ^ k mod 256"
  by (simp add: unat_byte_of unat_drop_bit_div)

lemma sint_signed_take_bit_7:
  "sint (signed_take_bit 7 (c :: 32 word)) = signed_take_bit 7 (sint c)"
  by (rule bit_eqI) (auto simp add: bit_simps min_def)

lemma scast_ucast_char:
  assumes "- 128 \<le> sint (c :: 32 word)" and "sint c \<le> 127"
  shows "scast (ucast c :: byte) = c"
proof (rule signed_word_eqI)
  have "sint (scast (ucast c :: byte) :: 32 word) = signed_take_bit 7 (sint c)"
    by (rule bit_eqI) (auto simp add: bit_simps min_def)
  also have "\<dots> = sint c"
    using assms by (simp add: signed_take_bit_int_eq_self)
  finally show "sint (scast (ucast c :: byte) :: 32 word) = sint c" .
qed

lemma ucast_ucast_char:
  assumes "unat (c :: 32 word) \<le> 255"
  shows "ucast (ucast c :: byte) = c"
proof (rule unsigned_word_eqI [where ?'a = nat])
  have "unat (ucast (ucast c :: byte) :: 32 word) = take_bit 8 (unat c)"
    by (rule bit_eqI) (auto simp add: bit_simps min_def)
  also have "\<dots> = unat c"
    using assms by (simp add: take_bit_eq_mod)
  finally show "unat (ucast (ucast c :: byte) :: 32 word) = unat c" .
qed

lemma enum_of_char_of_enum:
  "channel_is_char s c \<Longrightarrow> char_to_enum s (ucast c) = c"
  by (cases s) (simp_all add: channel_is_char_def char_to_enum_def scast_ucast_char ucast_ucast_char)

lemma enumerators_are_chars:
  "channel_is_char s VERSION_CHANNEL_DEV" "channel_is_char s VERSION_CHANNEL_INTERNAL"
  "channel_is_char s VERSION_CHANNEL_ALPHA" "channel_is_char s VERSION_CHANNEL_BETA"
  "channel_is_char s VERSION_CHANNEL_CANDIDATE" "channel_is_char s VERSION_CHANNEL_RELEASE"
  "channel_is_char s VERSION_CHANNEL_FACTORY"
  by (simp_all add: channel_is_char_def VERSION_CHANNEL_DEV_def VERSION_CHANNEL_INTERNAL_def
      VERSION_CHANNEL_ALPHA_def VERSION_CHANNEL_BETA_def VERSION_CHANNEL_CANDIDATE_def
      VERSION_CHANNEL_RELEASE_def VERSION_CHANNEL_FACTORY_def)

lemma sint_char_to_enum: "sint (char_to_enum True c) = sint c"
proof -
  have "- 128 \<le> sint c" "sint c < 128"
    using sint_greater_eq [of c] sint_less [of c] by simp_all
  then have "signed_take_bit 31 (sint c) = sint c"
    by (simp add: signed_take_bit_int_eq_self)
  moreover have "sint (scast c :: 32 word) = signed_take_bit 31 (sint c)"
    by (simp only: signed_scast_eq) simp
  ultimately show ?thesis
    by (simp add: char_to_enum_def)
qed

lemma unat_char_to_enum: "unat (char_to_enum False c) = unat c"
proof -
  have "unat c < 256"
    using unsigned_less [of c] by simp
  then have "take_bit 32 (unat c) = unat c"
    by (simp add: take_bit_eq_mod)
  moreover have "unat (ucast c :: 32 word) = take_bit 32 (unat c)"
    by (simp only: unsigned_ucast_eq) simp
  ultimately show ?thesis
    by (simp add: char_to_enum_def)
qed



lemma cs_decode_tag:
  "length b = 64 \<Longrightarrow> b ! 0 \<noteq> 1 \<Longrightarrow> VersionInfo_Decode (Some b) = Inl NotImplementedException"
  by (simp add: VersionInfo_Decode_def Let_def)

lemma decode_cases:
  "prodVersionDecodeBytes s buf len ret =
     (case (buf, ret) of
        (Some b, Some old) \<Rightarrow>
          if len < 64 \<or> b ! 0 \<noteq> 1 then (False, ret) else (True, Some (decoded s b))
      | _ \<Rightarrow> (False, ret))"
  by (cases buf; cases ret) (simp_all add: decode_eq decode_null)

lemma c_str_take_upd0: "c_str (take m (s[0 := 0])) = []"
  by (cases s; cases m) (simp_all add: c_str_def)

lemma drop_upd0: "0 < m \<Longrightarrow> drop m (s[0 := x]) = drop m s"
  by (cases s; cases m) simp_all

text \<open>
  What the C formatter prints for the example record, whatever memory follows its arrays:
  its last conversion, \<open>%c\<close>, prints the build number 7 as the character of code 7,
  where the comment above the call shows the text \<open>build 42\<close>.
\<close>

lemma printf_s_terminated: "0 \<in> set a \<Longrightarrow> printf_s a following = c_str a"
  by (induction a) (auto simp add: printf_s_def c_str_def)

lemma acme_texts:
  "first_char (product (acme c)) = 0x41" "0 \<in> set (product (acme c))"
  "c_str (product (acme c)) = bytes ''ACME''"
  "first_char (metadata (acme c)) = 0" "0 \<in> set (metadata (acme c))"
  "c_str (metadata (acme c)) = []"
  "0 \<in> set (commitHash (acme c))" "c_str (commitHash (acme c)) = bytes ''abc1234''"
  unfolding acme_def prodVersion_t.simps by code_simp+

lemma zero_bytes:
  "(0 :: byte) # replicate 51 0 = replicate 52 0" "(0 :: byte) # replicate 41 0 = replicate 42 0"
  by code_simp+

lemma acme_numbers:
  "major (acme c) = 1" "minor (acme c) = 2" "patch (acme c) = 3" "build (acme c) = 7"
  "releaseChannel (acme c) = c"
  by (simp_all add: acme_def)

lemma c_formatter_prints_build_as_character:
  "prodVersionToString mem (Some (acme VERSION_CHANNEL_RELEASE)) (Some (replicate 64 0)) 64
     = (12, Some (bytes ''ACME 1.2.3r'' @ [7] @ replicate 52 0))"
proof -
  have "format_version mem (acme VERSION_CHANNEL_RELEASE) = bytes ''ACME 1.2.3r'' @ [7]"
    by (simp add: format_version_def acme_texts acme_numbers printf_s_terminated bytes_def
        VERSION_CHANNEL_RELEASE_def utoa.simps)
  then show ?thesis
    by (simp add: prodVersionToString_def snprintf_def INT_MAX_def bytes_def Let_def zero_bytes)
qed

text \<open>
  An array that holds no zero byte is read past its end. In the usual layout the
  structure \<open>long_texts\<close> prints 69 characters: 25 for the product, stopped by the
  padding byte, and 24 for the metadata, which runs through the commit reference into the
  date.
\<close>

lemma c_formatter_reads_past_unterminated_array:
  "length (format_version (usual_layout [0, 0, 0] [] long_texts) long_texts) = 69"
  "fst (prodVersionToString (usual_layout [0, 0, 0] [] long_texts) (Some long_texts)
          (Some (replicate 96 0)) 96) = 69"
  by code_simp+

section \<open>The claims\<close>

text \<open>
  Claim C1. Round trip. For every structure whose three texts fit their wire widths
  (product at most 24 characters, metadata at most 15, commit reference at most 7; the
  text of a member is the C string it holds, so it has no zero byte) and whose
  \<open>releaseChannel\<close> holds a character code, as each of the seven enumerators does,
  decoding the encoded bytes succeeds and gives back every member: the three texts,
  major, minor, patch, build, the channel and the date.
\<close>

theorem decode_encode_roundtrip:
  assumes "length (c_str (product v)) \<le> 24"
    and "length (c_str (metadata v)) \<le> 15"
    and "length (c_str (commitHash v)) \<le> 7"
    and "channel_is_char s (releaseChannel v)"
    and "64 \<le> len" and "len \<le> length dst"
  shows "\<exists>r. prodVersionDecodeBytes s
               (snd (prodVersionEncodeBytes (Some dst) len (Some v))) len (Some old)
             = (True, Some r)
     \<and> c_str (product r) = c_str (product v)
     \<and> major r = major v \<and> minor r = minor v \<and> patch r = patch v \<and> build r = build v
     \<and> releaseChannel r = releaseChannel v
     \<and> c_str (metadata r) = c_str (metadata v)
     \<and> c_str (commitHash r) = c_str (commitHash v)
     \<and> date r = date v"
  using assms
  by (simp add: roundtrip c_str_strncpy_bytes enum_of_char_of_enum)

theorem decode_encode_roundtrip_witness:
  "\<exists>r. prodVersionDecodeBytes True
          (snd (prodVersionEncodeBytes (Some (replicate 64 0)) 64 (Some (acme VERSION_CHANNEL_BETA))))
          64 (Some long_texts) = (True, Some r)
     \<and> c_str (product r) = bytes ''ACME'' \<and> major r = 1 \<and> minor r = 2 \<and> patch r = 3
     \<and> build r = 7 \<and> releaseChannel r = VERSION_CHANNEL_BETA \<and> c_str (metadata r) = []
     \<and> c_str (commitHash r) = bytes ''abc1234'' \<and> date r = 1700000000"
  using decode_encode_roundtrip [of "acme VERSION_CHANNEL_BETA" True 64 "replicate 64 0" long_texts]
  by (simp add: acme_def c_str_def bytes_def channel_is_char_def VERSION_CHANNEL_BETA_def)

text \<open>
  Claim C2. The encoder writes the layout of the wire format: the tag 1 at offset 0, the
  product text zero-padded in bytes 1 to 24, each 16-bit member with its high byte first
  at offsets 25, 27, 29 and 31, the channel byte at 33, the metadata and commit texts
  zero-padded at 34 and 49, and the date with its most significant byte first in bytes
  56 to 63. A major version 0x0102 puts 0x01 at offset 25 and 0x02 at offset 26.
\<close>

theorem encode_layout:
  assumes "64 \<le> len" and "len \<le> length b"
  shows "\<exists>out. prodVersionEncodeBytes (Some b) len (Some v) = (64, Some out)
     \<and> out ! 0 = 1
     \<and> take 24 (drop 1 out) = take 24 (c_str (product v)) @ replicate (24 - length (c_str (product v))) 0
     \<and> unat (out ! 25) = unat (major v) div 256 \<and> unat (out ! 26) = unat (major v) mod 256
     \<and> unat (out ! 27) = unat (minor v) div 256 \<and> unat (out ! 28) = unat (minor v) mod 256
     \<and> unat (out ! 29) = unat (patch v) div 256 \<and> unat (out ! 30) = unat (patch v) mod 256
     \<and> unat (out ! 31) = unat (build v) div 256 \<and> unat (out ! 32) = unat (build v) mod 256
     \<and> out ! 33 = ucast (releaseChannel v)
     \<and> take 15 (drop 34 out) = take 15 (c_str (metadata v)) @ replicate (15 - length (c_str (metadata v))) 0
     \<and> take 7 (drop 49 out) = take 7 (c_str (commitHash v)) @ replicate (7 - length (c_str (commitHash v))) 0
     \<and> unat (out ! 56) = unat (date v) div 2 ^ 56 mod 256
     \<and> unat (out ! 57) = unat (date v) div 2 ^ 48 mod 256
     \<and> unat (out ! 58) = unat (date v) div 2 ^ 40 mod 256
     \<and> unat (out ! 59) = unat (date v) div 2 ^ 32 mod 256
     \<and> unat (out ! 60) = unat (date v) div 2 ^ 24 mod 256
     \<and> unat (out ! 61) = unat (date v) div 2 ^ 16 mod 256
     \<and> unat (out ! 62) = unat (date v) div 2 ^ 8 mod 256
     \<and> unat (out ! 63) = unat (date v) mod 256
     \<and> (major v = 0x0102 \<longrightarrow> out ! 25 = 0x01 \<and> out ! 26 = 0x02)"
proof -
  have e: "prodVersionEncodeBytes (Some b) len (Some v) = (64, Some (wire v @ drop 64 b))"
    using assms by (rule encode_wire)
  have d0: "unat (ucast (date v AND 0xFF) :: byte) = unat (date v) mod 256"
    using unat_byte64 [of 0 "date v"] by simp
  have "(wire v @ drop 64 b) ! 0 = 1"
    by (simp add: wire_def PRODVER_STRUCTVER_def)
  moreover have "take 24 (drop 1 (wire v @ drop 64 b)) = strncpy_bytes (product v) 24"
    by (simp add: wire_def)
  moreover have "take 15 (drop 34 (wire v @ drop 64 b)) = strncpy_bytes (metadata v) 15"
    by (simp add: wire_def be16_def)
  moreover have "take 7 (drop 49 (wire v @ drop 64 b)) = strncpy_bytes (commitHash v) 7"
    by (simp add: wire_def be16_def)
  moreover have "(wire v @ drop 64 b) ! 25 = ucast (drop_bit 8 (ucast (major v) :: 32 word) AND 0xFF)"
    "(wire v @ drop 64 b) ! 26 = ucast ((ucast (major v) :: 32 word) AND 0xFF)"
    "(wire v @ drop 64 b) ! 27 = ucast (drop_bit 8 (ucast (minor v) :: 32 word) AND 0xFF)"
    "(wire v @ drop 64 b) ! 28 = ucast ((ucast (minor v) :: 32 word) AND 0xFF)"
    "(wire v @ drop 64 b) ! 29 = ucast (drop_bit 8 (ucast (patch v) :: 32 word) AND 0xFF)"
    "(wire v @ drop 64 b) ! 30 = ucast ((ucast (patch v) :: 32 word) AND 0xFF)"
    "(wire v @ drop 64 b) ! 31 = ucast (drop_bit 8 (ucast (build v) :: 32 word) AND 0xFF)"
    "(wire v @ drop 64 b) ! 32 = ucast ((ucast (build v) :: 32 word) AND 0xFF)"
    "(wire v @ drop 64 b) ! 33 = ucast (releaseChannel v)"
    by (simp_all add: wire_def be16_def nth_append)
  moreover have "(wire v @ drop 64 b) ! 56 = ucast (drop_bit 56 (date v) AND 0xFF)"
    "(wire v @ drop 64 b) ! 57 = ucast (drop_bit 48 (date v) AND 0xFF)"
    "(wire v @ drop 64 b) ! 58 = ucast (drop_bit 40 (date v) AND 0xFF)"
    "(wire v @ drop 64 b) ! 59 = ucast (drop_bit 32 (date v) AND 0xFF)"
    "(wire v @ drop 64 b) ! 60 = ucast (drop_bit 24 (date v) AND 0xFF)"
    "(wire v @ drop 64 b) ! 61 = ucast (drop_bit 16 (date v) AND 0xFF)"
    "(wire v @ drop 64 b) ! 62 = ucast (drop_bit 8 (date v) AND 0xFF)"
    "(wire v @ drop 64 b) ! 63 = ucast (date v AND 0xFF)"
    by (simp_all add: wire_def be16_def be64_def nth_append)
  ultimately show ?thesis
    unfolding e
    by (simp add: unat_hi16 unat_lo16 unat_byte64 d0 strncpy_bytes_c_str)
qed

theorem encode_layout_witness:
  "\<exists>out. prodVersionEncodeBytes (Some (replicate 64 0)) 64 (Some major_0102) = (64, Some out)
     \<and> out ! 0 = 1 \<and> out ! 25 = 0x01 \<and> out ! 26 = 0x02
     \<and> unat (out ! 60) = 1700000000 div 2 ^ 24 mod 256"
  using encode_layout [of 64 "replicate 64 0" major_0102]
  by (auto simp add: major_0102_def acme_def)

text \<open>
  Claim C3. A buffer of 64 bytes (or more) whose first byte is not 1 is rejected: the C
  decoder returns false and the C\# decoder throws. The result does not depend on any
  other byte of the buffer, so the tag is checked before any field is read. Whenever the
  C decoder fails, for whatever reason, the output structure is left as it was; whenever
  it succeeds the structure it leaves is determined by the buffer alone, no member of the
  previous content being kept.
\<close>

theorem bad_tag_rejected:
  "(64 \<le> len \<and> len \<le> length b \<and> b ! 0 \<noteq> 1 \<longrightarrow>
      prodVersionDecodeBytes s (Some b) len (Some old) = (False, Some old))
   \<and> (\<not> fst (prodVersionDecodeBytes s buf len ret) \<longrightarrow>
      snd (prodVersionDecodeBytes s buf len ret) = ret)
   \<and> (fst (prodVersionDecodeBytes s buf len (Some old)) \<longrightarrow>
      (\<exists>r. \<forall>old'. prodVersionDecodeBytes s buf len (Some old') = (True, Some r)))
   \<and> (length b = 64 \<and> b ! 0 \<noteq> 1 \<longrightarrow>
      VersionInfo_Decode (Some b) = Inl NotImplementedException)"
  by (auto simp add: decode_cases cs_decode_tag split: option.splits if_splits)

theorem bad_tag_rejected_witness:
  "prodVersionDecodeBytes True (Some (replicate 64 0)) 64 (Some long_texts) = (False, Some long_texts)
   \<and> snd (prodVersionDecodeBytes True (Some (replicate 64 0)) 64 (Some long_texts)) = Some long_texts
   \<and> (\<exists>r. \<forall>old'. prodVersionDecodeBytes True (Some (tagged_buffer 0x72)) 64 (Some old')
                    = (True, Some r))
   \<and> VersionInfo_Decode (Some (replicate 64 0)) = Inl NotImplementedException"
proof -
  have "fst (prodVersionDecodeBytes True (Some (tagged_buffer 0x72)) 64 (Some long_texts))"
    by (simp add: decode_eq tagged_buffer_def)
  moreover have "\<not> fst (prodVersionDecodeBytes True (Some (replicate 64 0)) 64 (Some long_texts))"
    by (simp add: decode_eq)
  ultimately show ?thesis
    using bad_tag_rejected [of 64 "replicate 64 0" True long_texts "Some (replicate 64 0)" "Some long_texts"]
      bad_tag_rejected [of 64 "replicate 64 0" True long_texts "Some (tagged_buffer 0x72)" "Some long_texts"]
    by simp
qed




text \<open>
  Claim C5. Truncation. When the product, metadata or commit text is longer than its wire
  width (24, 15, 7), encoding and then decoding gives exactly its leading 24, 15 or 7
  characters; the decoded texts contain no padding byte.
\<close>

theorem overlong_text_truncated:
  assumes "64 \<le> len" and "len \<le> length dst"
  shows "\<exists>r. prodVersionDecodeBytes s
               (snd (prodVersionEncodeBytes (Some dst) len (Some v))) len (Some old)
             = (True, Some r)
     \<and> (24 < length (c_str (product v)) \<longrightarrow>
          c_str (product r) = take 24 (c_str (product v)) \<and> length (c_str (product r)) = 24)
     \<and> (15 < length (c_str (metadata v)) \<longrightarrow>
          c_str (metadata r) = take 15 (c_str (metadata v)) \<and> length (c_str (metadata r)) = 15)
     \<and> (7 < length (c_str (commitHash v)) \<longrightarrow>
          c_str (commitHash r) = take 7 (c_str (commitHash v)) \<and> length (c_str (commitHash r)) = 7)
     \<and> 0 \<notin> set (c_str (product r)) \<and> 0 \<notin> set (c_str (metadata r))
     \<and> 0 \<notin> set (c_str (commitHash r))"
  using assms
  by (simp add: roundtrip c_str_strncpy_bytes c_str_no_nul)

theorem overlong_text_truncated_witness:
  "\<exists>r. prodVersionDecodeBytes False
          (snd (prodVersionEncodeBytes (Some (replicate 64 0)) 64 (Some long_texts)))
          64 (Some (acme VERSION_CHANNEL_DEV)) = (True, Some r)
     \<and> c_str (product r) = bytes ''ABCDEFGHIJKLMNOPQRSTUVWX''
     \<and> c_str (metadata r) = bytes ''0123456789abcde''
     \<and> c_str (commitHash r) = bytes ''7b5a2fe''"
proof -
  have "c_str (product long_texts) = bytes ''ABCDEFGHIJKLMNOPQRSTUVWXY''"
    and "c_str (metadata long_texts) = bytes ''0123456789abcdef''"
    and "c_str (commitHash long_texts) = bytes ''7b5a2fe9''"
    by (simp_all add: long_texts_def c_str_def bytes_def)
  with overlong_text_truncated [of 64 "replicate 64 0" False long_texts "acme VERSION_CHANNEL_DEV"]
  show ?thesis
    by (auto simp add: bytes_def)
qed

text \<open>
  Claim C6. Decoding a buffer of at least 64 bytes with the tag 1 succeeds whatever byte
  stands at offset 33: the decoded channel has the value of that character (its
  conversion back to \<open>char\<close> is the byte read; its numeric value is the character's,
  signed or unsigned as plain \<open>char\<close> is), and encoding the decoded structure writes
  the same byte at offset 33.
\<close>

theorem unknown_channel_preserved:
  assumes "64 \<le> len" and "len \<le> length b" and "b ! 0 = 1"
    and "64 \<le> n" and "n \<le> length dst"
  shows "\<exists>r out. prodVersionDecodeBytes s (Some b) len (Some old) = (True, Some r)
     \<and> ucast (releaseChannel r) = b ! 33
     \<and> (if s then sint (releaseChannel r) = sint (b ! 33)
         else unat (releaseChannel r) = unat (b ! 33))
     \<and> prodVersionEncodeBytes (Some dst) n (Some r) = (64, Some out)
     \<and> out ! 33 = b ! 33"
proof -
  have "(wire (decoded s b) @ drop 64 dst) ! 33 = ucast (releaseChannel (decoded s b))"
    by (simp add: wire_def be16_def nth_append)
  moreover have "releaseChannel (decoded s b) = char_to_enum s (b ! 33)"
    by (simp add: decoded_def)
  ultimately show ?thesis
    using assms
    by (cases s) (simp_all add: decode_eq encode_wire char_of_enum_of_char
        sint_char_to_enum unat_char_to_enum)
qed

theorem unknown_channel_preserved_witness:
  "\<exists>r out. prodVersionDecodeBytes True (Some (tagged_buffer 0xE9)) 64 (Some long_texts)
             = (True, Some r)
     \<and> ucast (releaseChannel r) = (0xE9 :: byte)
     \<and> sint (releaseChannel r) = - 23
     \<and> prodVersionEncodeBytes (Some (replicate 64 0)) 64 (Some r) = (64, Some out)
     \<and> out ! 33 = 0xE9"
proof -
  have "length (tagged_buffer 0xE9) = 64" and "tagged_buffer 0xE9 ! 0 = 1"
    and "tagged_buffer 0xE9 ! 33 = 0xE9"
    by (simp_all add: tagged_buffer_def bytes_def nth_append)
  with unknown_channel_preserved [of 64 "tagged_buffer 0xE9" 64 "replicate 64 0" True long_texts]
  show ?thesis
    by auto
qed

text \<open>
  Claim C7. For every record and every destination of at least 64 bytes the encoder
  succeeds: it returns 64 and has written the 64 bytes of the wire format into the first
  64 positions of the destination, which keeps its length and its bytes from offset 64
  on, whatever the fields hold. With a record and a destination
  present it fails, returning 0 and leaving the destination as it was, exactly when the
  length passed is below 64. (A call with a null pointer in place of the record or of the
  destination has neither, and returns 0 as well.)
\<close>

theorem encode_only_fails_on_short_buffer:
  assumes "len \<le> length b"
  shows "(64 \<le> len \<longrightarrow>
            (\<exists>out. prodVersionEncodeBytes (Some b) len (Some v) = (64, Some out)
                   \<and> take 64 out = wire v \<and> length (wire v) = 64
                   \<and> length out = length b \<and> drop 64 out = drop 64 b))
       \<and> (len < 64 \<longrightarrow> prodVersionEncodeBytes (Some b) len (Some v) = (0, Some b))
       \<and> (fst (prodVersionEncodeBytes (Some b) len (Some v)) = 0 \<longleftrightarrow> len < 64)"
proof (cases "len < 64")
  case True
  then show ?thesis by (simp add: encode_short)
next
  case False
  with assms have "prodVersionEncodeBytes (Some b) len (Some v) = (64, Some (wire v @ drop 64 b))"
    by (simp add: encode_wire)
  with False assms show ?thesis by simp
qed

theorem encode_only_fails_on_short_buffer_witness:
  "(\<exists>out. prodVersionEncodeBytes (Some (replicate 70 0xEE)) 70 (Some (acme VERSION_CHANNEL_BETA))
             = (64, Some out) \<and> take 64 out = tagged_buffer 0x62
             \<and> length out = 70 \<and> drop 64 out = replicate 6 0xEE)
   \<and> prodVersionEncodeBytes (Some (replicate 70 0xEE)) 63 (Some (acme VERSION_CHANNEL_BETA))
       = (0, Some (replicate 70 0xEE))"
proof -
  have "wire (acme VERSION_CHANNEL_BETA) = tagged_buffer 0x62"
    by code_simp
  with encode_only_fails_on_short_buffer [of 70 "replicate 70 0xEE" "acme VERSION_CHANNEL_BETA"]
    encode_only_fails_on_short_buffer [of 63 "replicate 70 0xEE" "acme VERSION_CHANNEL_BETA"]
  show ?thesis by auto
qed

text \<open>
  Claim C8. For every record, whatever memory follows its arrays, the formatter never
  writes past the maximum length it is given: the buffer keeps its length and its bytes
  from that length on, and the length returned is at most the maximum. Whenever the
  rendered text does not fit (it is at least as long as the maximum, the terminator
  counted), zero is returned and the string within the maximum is empty; whenever a
  length other than zero is returned, the buffer holds the whole text and its terminator,
  never a truncated one.
\<close>

theorem format_never_overflows:
  assumes "buf_len \<le> length ret"
  shows "\<exists>n out. prodVersionToString mem (Some v) (Some ret) buf_len = (n, Some out)
     \<and> length out = length ret \<and> drop buf_len out = drop buf_len ret
     \<and> n \<le> buf_len
     \<and> (buf_len \<le> length (format_version mem v) \<longrightarrow>
          n = 0 \<and> c_str (take buf_len out) = [])
     \<and> (n \<noteq> 0 \<longrightarrow> n = length (format_version mem v) \<and> take n out = format_version mem v
                   \<and> out ! n = 0)"
proof -
  define t where "t = format_version mem v"
  consider (zero) "buf_len = 0" | (one) "buf_len = 1"
    | (err) "2 \<le> buf_len" "INT_MAX < int (length t)"
    | (long) "2 \<le> buf_len" "int (length t) \<le> INT_MAX" "buf_len \<le> length t"
    | (fits) "2 \<le> buf_len" "int (length t) \<le> INT_MAX" "length t < buf_len"
    by linarith
  then show ?thesis
  proof cases
    case zero
    then show ?thesis by (simp add: prodVersionToString_def c_str_def)
  next
    case one
    then show ?thesis
      by (simp add: prodVersionToString_def c_str_take_upd0 drop_upd0)
  next
    case err
    then show ?thesis
      by (simp add: prodVersionToString_def snprintf_def t_def [symmetric]
          c_str_take_upd0 drop_upd0)
  next
    case long
    then have k: "min (length t) (buf_len - 1) = buf_len - 1" by simp
    from long assms show ?thesis
      by (simp add: prodVersionToString_def snprintf_def t_def [symmetric] Let_def k
          c_str_take_upd0 drop_upd0)
  next
    case fits
    then have k: "min (length t) (buf_len - 1) = length t" by simp
    from fits assms have "Suc (length ret - Suc 0) = length ret"
      by simp
    moreover from fits assms
    have "drop (buf_len - length t) (0 # drop (Suc (length t)) ret) = drop buf_len ret"
      by (simp add: drop_Cons' Suc_diff_Suc)
    ultimately show ?thesis
      using fits assms
      by (simp add: prodVersionToString_def snprintf_def t_def [symmetric] Let_def k
          nth_append)
  qed
qed

theorem format_never_overflows_witness:
  "\<exists>n out. prodVersionToString (usual_layout [0, 0, 0] [] long_texts) (Some long_texts)
              (Some (replicate 80 0xAA)) 69 = (n, Some out)
     \<and> length out = 80 \<and> drop 69 out = replicate 11 0xAA \<and> n = 0 \<and> c_str (take 69 out) = []"
proof -
  have "length (format_version (usual_layout [0, 0, 0] [] long_texts) long_texts) = 69"
    by code_simp
  with format_never_overflows [of 69 "replicate 80 0xAA" "usual_layout [0, 0, 0] [] long_texts"
      long_texts]
  show ?thesis by auto
qed

text \<open>
  Claim C9, as stated, fails: for the example record, whose build number is 7, neither
  formatter renders exactly \<open>ACME 1.2.3r\<close>.
\<close>

theorem formatter_example_counterexample:
  "c_str (the (snd (prodVersionToString
                      (usual_layout [0, 0, 0] [] (acme VERSION_CHANNEL_RELEASE))
                      (Some (acme VERSION_CHANNEL_RELEASE)) (Some (replicate 64 0)) 64)))
     \<noteq> bytes ''ACME 1.2.3r''
   \<and> VersionInfo_ToString (cs_acme ReleaseChannel_Release 7) \<noteq> cs ''ACME 1.2.3r''"
  by code_simp

text \<open>
  Claim C9, amended. For the example record the C\# formatter renders exactly
  \<open>ACME 1.2.3r build 7\<close>, the commit reference omitted because the channel is release,
  and on the beta channel exactly \<open>ACME 1.2.3b (abc1234) build 7\<close>; with a build number
  of 0 it renders exactly \<open>ACME 1.2.3r\<close> and \<open>ACME 1.2.3b (abc1234)\<close>. In the text of
  the C formatter, what precedes the output of the last conversion, the one for the build
  number, is exactly \<open>ACME 1.2.3r\<close>, respectively \<open>ACME 1.2.3b (abc1234)\<close>. The
  theorem gives the whole result of the C formatter, for whatever memory follows the
  arrays: the length returned and every byte of the buffer, the last conversion printing
  the one character of code 7.
\<close>

theorem formatter_example:
  "VersionInfo_ToString (cs_acme ReleaseChannel_Release 7) = cs ''ACME 1.2.3r build 7''
   \<and> VersionInfo_ToString (cs_acme ReleaseChannel_Beta 7) = cs ''ACME 1.2.3b (abc1234) build 7''
   \<and> VersionInfo_ToString (cs_acme ReleaseChannel_Release 0) = cs ''ACME 1.2.3r''
   \<and> VersionInfo_ToString (cs_acme ReleaseChannel_Beta 0) = cs ''ACME 1.2.3b (abc1234)''
   \<and> prodVersionToString mem (Some (acme VERSION_CHANNEL_RELEASE)) (Some (replicate 64 0)) 64
       = (12, Some ((bytes ''ACME 1.2.3r'' @ [7]) @ replicate 52 0))
   \<and> prodVersionToString mem (Some (acme VERSION_CHANNEL_BETA)) (Some (replicate 64 0)) 64
       = (22, Some ((bytes ''ACME 1.2.3b (abc1234)'' @ [7]) @ replicate 42 0))"
proof -
  have cs: "VersionInfo_ToString (cs_acme ReleaseChannel_Release 7) = cs ''ACME 1.2.3r build 7''"
    "VersionInfo_ToString (cs_acme ReleaseChannel_Beta 7) = cs ''ACME 1.2.3b (abc1234) build 7''"
    "VersionInfo_ToString (cs_acme ReleaseChannel_Release 0) = cs ''ACME 1.2.3r''"
    "VersionInfo_ToString (cs_acme ReleaseChannel_Beta 0) = cs ''ACME 1.2.3b (abc1234)''"
    by code_simp+
  have r: "format_version mem (acme VERSION_CHANNEL_RELEASE) = bytes ''ACME 1.2.3r'' @ [7]"
    by (simp add: format_version_def acme_texts acme_numbers printf_s_terminated bytes_def
        VERSION_CHANNEL_RELEASE_def utoa.simps)
  have b: "format_version mem (acme VERSION_CHANNEL_BETA)
             = bytes ''ACME 1.2.3b (abc1234)'' @ [7]"
    by (simp add: format_version_def acme_texts acme_numbers printf_s_terminated bytes_def
        VERSION_CHANNEL_RELEASE_def VERSION_CHANNEL_BETA_def utoa.simps)
  have "prodVersionToString mem (Some (acme VERSION_CHANNEL_RELEASE)) (Some (replicate 64 0)) 64
       = (12, Some ((bytes ''ACME 1.2.3r'' @ [7]) @ replicate 52 0))"
    by (simp add: prodVersionToString_def snprintf_def INT_MAX_def Let_def r) (simp add: bytes_def zero_bytes)
  moreover
  have "prodVersionToString mem (Some (acme VERSION_CHANNEL_BETA)) (Some (replicate 64 0)) 64
       = (22, Some ((bytes ''ACME 1.2.3b (abc1234)'' @ [7]) @ replicate 42 0))"
    by (simp add: prodVersionToString_def snprintf_def INT_MAX_def Let_def b) (simp add: bytes_def zero_bytes)
  ultimately show ?thesis
    using cs by simp
qed

text \<open>
  Claim C10. For every 64-byte buffer in canonical form (first byte 1, and in each of the
  three text slots every byte after the first zero byte zero), decoding succeeds and
  encoding the decoded structure writes the same 64 bytes.
\<close>

theorem encode_decode_canonical:
  assumes "length b = 64" and "b ! 0 = 1"
    and "nul_padded (take 24 (drop 1 b))"
    and "nul_padded (take 15 (drop 34 b))"
    and "nul_padded (take 7 (drop 49 b))"
    and "64 \<le> n" and "n \<le> length dst"
  shows "\<exists>r. prodVersionDecodeBytes s (Some b) 64 (Some old) = (True, Some r)
     \<and> prodVersionEncodeBytes (Some dst) n (Some r) = (64, Some (b @ drop 64 dst))"
proof -
  have "wire (decoded s b) = [b ! 0] @ take 24 (drop 1 b)
           @ [b ! 25, b ! 26, b ! 27, b ! 28, b ! 29, b ! 30, b ! 31, b ! 32, b ! 33]
           @ take 15 (drop 34 b) @ take 7 (drop 49 b)
           @ [b ! 56, b ! 57, b ! 58, b ! 59, b ! 60, b ! 61, b ! 62, b ! 63]"
    using assms(1-5)
    by (simp add: wire_def decoded_def be16_u16_of be64_u64_of strncpy_bytes_slot
        char_of_enum_of_char PRODVER_STRUCTVER_def)
  also have "\<dots> = b"
    using layout [OF assms(1)] by simp
  finally have "wire (decoded s b) = b" .
  then show ?thesis
    using assms by (simp add: decode_eq encode_wire)
qed

theorem encode_decode_canonical_witness:
  "\<exists>r. prodVersionDecodeBytes False (Some (tagged_buffer 0x72)) 64 (Some long_texts)
           = (True, Some r)
     \<and> prodVersionEncodeBytes (Some (replicate 64 0xFF)) 64 (Some r)
           = (64, Some (tagged_buffer 0x72))"
proof -
  have "length (tagged_buffer 0x72) = 64" and "tagged_buffer 0x72 ! 0 = 1"
    and "nul_padded (take 24 (drop 1 (tagged_buffer 0x72)))"
    and "nul_padded (take 15 (drop 34 (tagged_buffer 0x72)))"
    and "nul_padded (take 7 (drop 49 (tagged_buffer 0x72)))"
    by (simp_all add: tagged_buffer_def bytes_def nul_padded_def list_all_iff)
  with encode_decode_canonical [of "tagged_buffer 0x72" 64 "replicate 64 0xFF" False long_texts]
  show ?thesis
    by auto
qed

end
